theory Spec2Isabelle
  imports Main "HOL-Library.Sublist"
begin

section \<open>JavaScript values\<close>

text \<open>
  The webhook handler and the identity-provider tools work on untyped JSON
  (\<^verbatim>\<open>any\<close>): the request body, the event inside it and the provider's answers.
  A value is one of the JSON shapes, or \<^verbatim>\<open>undefined\<close> (what reading an absent
  property gives). Numbers are the integers JavaScript represents exactly; a string is
  a list of code units below 256, so the character classes of the program
  (\<^verbatim>\<open>\s\<close>, \<^verbatim>\<open>[A-Z0-9]\<close>, \<^verbatim>\<open>toLowerCase\<close>) are the ones of that range.
  An object is the list of its properties; a property is read with \<open>map_of\<close>.
\<close>

datatype js =
    Undefined
  | Null
  | Bool bool
  | Num int
  | Str string
  | Arr "js list"
  | Obj "(string \<times> js) list"

text \<open>What a \<^verbatim>\<open>throw\<close> carries: the built-in errors the program can run into, and
  \<^verbatim>\<open>new Error(message)\<close>.\<close>

datatype error =
    TypeError
  | SyntaxError
  | Error string

text \<open>Truthiness, as \<^verbatim>\<open>if (x)\<close>, \<^verbatim>\<open>x || y\<close> and \<^verbatim>\<open>x && y\<close> test it.\<close>

fun truthy :: "js \<Rightarrow> bool" where
  "truthy Undefined = False"
| "truthy Null = False"
| "truthy (Bool b) = b"
| "truthy (Num n) = (n \<noteq> 0)"
| "truthy (Str s) = (s \<noteq> [])"
| "truthy (Arr xs) = True"
| "truthy (Obj kvs) = True"

text \<open>
  Property reads. The program reads only the names \<^verbatim>\<open>type\<close>, \<^verbatim>\<open>challenge\<close>,
  \<^verbatim>\<open>event\<close>, \<^verbatim>\<open>bot_id\<close>, \<^verbatim>\<open>client_msg_id\<close>, \<^verbatim>\<open>ts\<close>, \<^verbatim>\<open>channel\<close>,
  \<^verbatim>\<open>text\<close>, \<^verbatim>\<open>profile\<close>, \<^verbatim>\<open>name\<close> and \<^verbatim>\<open>resetPasswordUrl\<close> this way; no
  prototype defines any of them, so on a string, number, boolean or array the read
  gives \<^verbatim>\<open>undefined\<close>, and on an object it gives the own property.
  \<open>property\<close> is the read on a value that is neither \<^verbatim>\<open>null\<close> nor \<^verbatim>\<open>undefined\<close>;
  \<open>get\<close> is \<^verbatim>\<open>x.k\<close>, which throws on those two; \<open>oget\<close> is \<^verbatim>\<open>x?.k\<close>.
\<close>

fun property :: "js \<Rightarrow> string \<Rightarrow> js" where
  "property (Obj kvs) k = (case map_of kvs k of None \<Rightarrow> Undefined | Some v \<Rightarrow> v)"
| "property x k = Undefined"

fun get :: "js \<Rightarrow> string \<Rightarrow> error + js" where
  "get Undefined k = Inl TypeError"
| "get Null k = Inl TypeError"
| "get x k = Inr (property x k)"

fun oget :: "js \<Rightarrow> string \<Rightarrow> js" where
  "oget x k = property x k"

subsection \<open>Conversion to string\<close>

function digits :: "nat \<Rightarrow> string" where
  "digits n = (if n < 10 then [char_of (48 + n)] else digits (n div 10) @ [char_of (48 + n mod 10)])"
  by pat_completeness auto
termination
  by (relation "measure id") auto

definition show_int :: "int \<Rightarrow> string" where
  "show_int i = (if i < 0 then CHR ''-'' # digits (nat (- i)) else digits (nat i))"

text \<open>
  \<^verbatim>\<open>`${x}`\<close> converts \<open>x\<close> to a string. An array is its elements joined with commas,
  \<^verbatim>\<open>null\<close> and \<^verbatim>\<open>undefined\<close> elements being empty. A parsed JSON object is
  \<^verbatim>\<open>[object Object]\<close>, unless it has a property of its own named \<^verbatim>\<open>toString\<close>:
  that property hides \<^verbatim>\<open>Object.prototype.toString\<close> and is not callable, and the
  conversion throws a TypeError.
\<close>

fun toString :: "js \<Rightarrow> error + string"
  and join :: "js list \<Rightarrow> error + string" where
  "toString Undefined = Inr ''undefined''"
| "toString Null = Inr ''null''"
| "toString (Bool b) = Inr (if b then ''true'' else ''false'')"
| "toString (Num n) = Inr (show_int n)"
| "toString (Str s) = Inr s"
| "toString (Arr xs) = join xs"
| "toString (Obj kvs) =
     (if map_of kvs ''toString'' = None then Inr ''[object Object]'' else Inl TypeError)"
| "join [] = Inr []"
| "join (x # xs) =
     (case (if x = Null \<or> x = Undefined then Inr [] else toString x) of
        Inl e \<Rightarrow> Inl e
      | Inr s \<Rightarrow>
          if xs = [] then Inr s
          else (case join xs of Inl e \<Rightarrow> Inl e | Inr t \<Rightarrow> Inr (s @ '','' @ t)))"

subsection \<open>Strings\<close>

text \<open>The white space of \<^verbatim>\<open>\s\<close> and of \<^verbatim>\<open>trim\<close> below code unit 256: tab, line feed,
  vertical tab, form feed, carriage return, space and no-break space.\<close>

definition isSpace :: "char \<Rightarrow> bool" where
  "isSpace c = ((of_char c :: nat) \<in> {9, 10, 11, 12, 13, 32, 160})"

text \<open>The class \<^verbatim>\<open>[A-Z0-9]\<close>.\<close>

definition isMentionChar :: "char \<Rightarrow> bool" where
  "isMentionChar c =
     (let n = (of_char c :: nat) in (65 \<le> n \<and> n \<le> 90) \<or> (48 \<le> n \<and> n \<le> 57))"

text \<open>
  One match of \<^verbatim>\<open><@[A-Z0-9]+>\s*\<close> at the start of a string, giving what follows the
  match. Both repetitions are greedy; a shorter run of \<^verbatim>\<open>[A-Z0-9]\<close> never helps,
  because the character that must follow it, \<^verbatim>\<open>>\<close>, is not in the class.
\<close>

definition matchMention :: "string \<Rightarrow> string option" where
  "matchMention s =
     (case s of
        c1 # c2 # r \<Rightarrow>
          if c1 = CHR ''<'' \<and> c2 = CHR ''@'' \<and> takeWhile isMentionChar r \<noteq> []
          then (case dropWhile isMentionChar r of
                  c3 # t \<Rightarrow> if c3 = CHR ''>'' then Some (dropWhile isSpace t) else None
                | [] \<Rightarrow> None)
          else None
      | _ \<Rightarrow> None)"

text \<open>\<^verbatim>\<open>s.replace(/<@[A-Z0-9]+>\s*/g, "")\<close>: the scan goes left to right, deletes each
  match and goes on after it; where no match starts, the character is kept.\<close>

function removeMentions :: "string \<Rightarrow> string" where
  "removeMentions [] = []"
| "removeMentions (c # s) =
     (case matchMention (c # s) of
        Some rest \<Rightarrow> removeMentions rest
      | None \<Rightarrow> c # removeMentions s)"
  by pat_completeness auto
termination
proof (relation "measure length")
  show "wf (measure length)" by simp
next
  fix c :: char and s t :: string
  assume m: "matchMention (c # s) = Some t"
  then obtain c2 r where s: "s = c2 # r"
    by (auto simp: matchMention_def split: list.splits)
  from m s obtain c3 u where d: "dropWhile isMentionChar r = c3 # u" and t: "t = dropWhile isSpace u"
    by (auto simp: matchMention_def split: list.splits if_splits)
  have "length (dropWhile isMentionChar r) \<le> length r" by (rule length_dropWhile_le)
  moreover have "length (dropWhile isSpace u) \<le> length u" by (rule length_dropWhile_le)
  ultimately show "(t, c # s) \<in> measure length" using s d t by simp
next
  fix c :: char and s :: string
  show "(s, c # s) \<in> measure length" by simp
qed

text \<open>A text between double quotes, as the template literals of the program write it.\<close>

definition quoted :: "string \<Rightarrow> string" where
  "quoted s = [CHR 0x22] @ s @ [CHR 0x22]"

definition trim :: "string \<Rightarrow> string" where
  "trim s = rev (dropWhile isSpace (rev (dropWhile isSpace s)))"

text \<open>\<^verbatim>\<open>toLowerCase\<close> below code unit 256: the letters A to Z, and the capital letters
  of the Latin-1 block (192 to 222 without the multiplication sign 215).\<close>

definition lowerChar :: "char \<Rightarrow> char" where
  "lowerChar c =
     (let n = (of_char c :: nat) in
      if (65 \<le> n \<and> n \<le> 90) \<or> (192 \<le> n \<and> n \<le> 222 \<and> n \<noteq> 215) then char_of (n + 32) else c)"

definition toLowerCase :: "string \<Rightarrow> string" where
  "toLowerCase s = map lowerChar s"

section \<open>The outside world\<close>

text \<open>
  Both files reach the network through \<^verbatim>\<open>fetch\<close>. A request is its method, URL,
  headers and, for the chat platform, the object handed to \<^verbatim>\<open>JSON.stringify\<close> as
  the body. An answer has a status, a body text (\<^verbatim>\<open>res.text()\<close>) and the value
  \<^verbatim>\<open>res.json()\<close> parses from it, \<open>None\<close> when the body is not JSON and
  \<^verbatim>\<open>res.json()\<close> rejects with a SyntaxError. \<^verbatim>\<open>fetch\<close> itself may reject.
  The agent is \<^verbatim>\<open>agent.generate\<close>: it gives the \<^verbatim>\<open>text\<close> of its result, or rejects.
  The variables of \<^verbatim>\<open>process.env\<close> may be absent, except the bot token, without
  which the process exits at startup.
\<close>

record request =
  req_method :: string
  req_url :: string
  req_headers :: "(string \<times> string) list"
  req_body :: "js option"

record fetch_response =
  res_status :: nat
  res_text :: string
  res_json :: "js option"

record env =
  SLACK_BOT_TOKEN :: string
  OKTA_ORG_URL :: "string option"
  OKTA_API_TOKEN :: "string option"
  fetch :: "request \<Rightarrow> error + fetch_response"
  generate :: "js \<Rightarrow> error + string"

text \<open>\<^verbatim>\<open>res.ok\<close>: the status is in the range 200 to 299.\<close>

definition res_ok :: "fetch_response \<Rightarrow> bool" where
  "res_ok res = (200 \<le> res_status res \<and> res_status res \<le> 299)"

text \<open>An absent environment variable inside a template literal reads \<^verbatim>\<open>undefined\<close>.\<close>

definition env_str :: "string option \<Rightarrow> string" where
  "env_str v = (case v of None \<Rightarrow> ''undefined'' | Some s \<Rightarrow> s)"

section \<open>The webhook handler (index.ts)\<close>

text \<open>
  What the handler does to the world, in program order: \<^verbatim>\<open>c.status(200)\<close> sets the
  status on the context and sends nothing; \<^verbatim>\<open>console.log\<close> and
  \<^verbatim>\<open>console.error\<close>; \<^verbatim>\<open>processedEvents.add\<close>; the awaited call of the agent;
  the awaited \<^verbatim>\<open>fetch\<close> of \<^verbatim>\<open>chat.postMessage\<close>; and the end of the handler,
  which is either the response it returns (\<^verbatim>\<open>c.json\<close>, \<^verbatim>\<open>c.body(null)\<close>), given
  to the platform by the server when the handler's promise resolves, or an exception
  nothing catches. A response is its status and its body: nothing for
  \<^verbatim>\<open>c.body(null)\<close>, and for \<^verbatim>\<open>c.json(v)\<close> the value \<open>v\<close> that the server then
  writes as JSON.
\<close>

datatype payload = Empty | Json js

datatype effect =
    SetStatus nat
  | Log string
  | Add string
  | Generate js
  | Fetch request
  | LogError error
  | Respond nat payload
  | Uncaught error

definition EVENT_EXPIRY_MS :: nat where
  "EVENT_EXPIRY_MS = 5 * 60 * 1000"

text \<open>The timer's callback, \<^verbatim>\<open>processedEvents.clear()\<close>, run every
  \<open>EVENT_EXPIRY_MS\<close> milliseconds.\<close>

definition clear :: "string set \<Rightarrow> string set" where
  "clear processedEvents = {}"

text \<open>\<^verbatim>\<open>`${event?.client_msg_id || event?.ts}_${event?.channel}`\<close>\<close>

definition eventId :: "js \<Rightarrow> error + string" where
  "eventId event =
     (case toString (if truthy (oget event ''client_msg_id'')
                     then oget event ''client_msg_id'' else oget event ''ts'') of
        Inl e \<Rightarrow> Inl e
      | Inr i \<Rightarrow>
          (case toString (oget event ''channel'') of
             Inl e \<Rightarrow> Inl e
           | Inr ch \<Rightarrow> Inr (i @ ''_'' @ ch)))"

text \<open>\<^verbatim>\<open>messageText.replace(/<@[A-Z0-9]+>\s*/g, "").trim()\<close>; a value that is not a
  string has no \<^verbatim>\<open>replace\<close> method to call.\<close>

definition stripMentions :: "js \<Rightarrow> error + js" where
  "stripMentions messageText =
     (case messageText of
        Str s \<Rightarrow> Inr (Str (trim (removeMentions s)))
      | _ \<Rightarrow> Inl TypeError)"

definition postMessage :: "env \<Rightarrow> js \<Rightarrow> string \<Rightarrow> request" where
  "postMessage env channel text =
     \<lparr>req_method = ''POST'',
      req_url = ''https://slack.com/api/chat.postMessage'',
      req_headers = [(''Authorization'', ''Bearer '' @ SLACK_BOT_TOKEN env),
                     (''Content-Type'', ''application/json'')],
      req_body = Some (Obj [(''channel'', channel), (''text'', Str text)])\<rparr>"

text \<open>The \<^verbatim>\<open>try\<close> block with its \<^verbatim>\<open>catch\<close>: everything thrown inside is logged
  and ends the block. The agent is the one registered at startup, so looking it up
  with \<^verbatim>\<open>getAgent\<close> succeeds.\<close>

definition processMessage :: "env \<Rightarrow> js \<Rightarrow> effect list" where
  "processMessage env event =
     (case (if property event ''type'' = Str ''app_mention''
            then stripMentions (property event ''text'')
            else Inr (property event ''text'')) of
        Inl e \<Rightarrow> [LogError e]
      | Inr messageText \<Rightarrow>
          (case toString (property event ''type'') of
             Inl e \<Rightarrow> [LogError e]
           | Inr ty \<Rightarrow>
          (case toString messageText of
             Inl e \<Rightarrow> [LogError e]
           | Inr shown \<Rightarrow>
               Log (''Processing '' @ ty @ '': '' @ quoted shown) #
               Generate messageText #
               (case generate env messageText of
                  Inl e \<Rightarrow> [LogError e]
                | Inr reply \<Rightarrow>
                    Fetch (postMessage env (property event ''channel'') reply) #
                    (case fetch env (postMessage env (property event ''channel'') reply) of
                       Inl e \<Rightarrow> [LogError e]
                     | Inr res \<Rightarrow> [])))))"

text \<open>
  The handler, given what \<^verbatim>\<open>await c.req.json()\<close> produced (\<open>Inl\<close> when the body
  is not JSON and the call rejects) and the set \<^verbatim>\<open>processedEvents\<close>; it gives the
  set afterwards and its effects in order.
\<close>

definition handler :: "env \<Rightarrow> string set \<Rightarrow> error + js \<Rightarrow> string set \<times> effect list" where
  "handler env processedEvents req =
     (case req of
        Inl e \<Rightarrow> (processedEvents, [Uncaught e])
      | Inr body \<Rightarrow>
          if body = Null \<or> body = Undefined then (processedEvents, [Uncaught TypeError])
          else
            let type = property body ''type'';
                challenge = property body ''challenge'';
                event = property body ''event''
            in
            if type = Str ''url_verification''
            then (processedEvents, [Respond 200 (Json (Obj [(''challenge'', challenge)]))])
            else if truthy (oget event ''bot_id'')
            then (processedEvents, [SetStatus 200, Respond 200 Empty])
            else
              (case eventId event of
                 Inl e \<Rightarrow> (processedEvents, [SetStatus 200, Uncaught e])
               | Inr eid \<Rightarrow>
                   if eid \<in> processedEvents
                   then (processedEvents,
                         [SetStatus 200, Log (''Skipping duplicate event: '' @ eid),
                          Respond 200 Empty])
                   else
                     (insert eid processedEvents,
                      [SetStatus 200, Add eid] @
                      (if truthy event \<and>
                          (property event ''type'' = Str ''message'' \<or>
                           property event ''type'' = Str ''app_mention'') \<and>
                          truthy (property event ''text'')
                       then processMessage env event else []) @
                      [Respond 200 Empty])))"

text \<open>
  Requests served one after the other between two runs of the timer. Each request
  comes with its own world, since the agent and the network need not answer twice
  alike. The handler does not await between reading \<^verbatim>\<open>processedEvents\<close> and adding
  to it, so with requests in flight together the reads and additions still happen
  in some such order.
\<close>

fun serve :: "string set \<Rightarrow> (env \<times> (error + js)) list \<Rightarrow> effect list list" where
  "serve processedEvents [] = []"
| "serve processedEvents ((env, req) # reqs) =
     snd (handler env processedEvents req) #
     serve (fst (handler env processedEvents req)) reqs"

fun isGenerate :: "effect \<Rightarrow> bool" where
  "isGenerate (Generate x) = True"
| "isGenerate e = False"

fun isFetch :: "effect \<Rightarrow> bool" where
  "isFetch (Fetch r) = True"
| "isFetch e = False"

fun isRespond :: "effect \<Rightarrow> bool" where
  "isRespond (Respond n p) = True"
| "isRespond e = False"

text \<open>The fingerprint of a request: the \<open>eventId\<close> of the event in its body.\<close>

definition fingerprint :: "error + js \<Rightarrow> error + string" where
  "fingerprint req = (case req of Inl e \<Rightarrow> Inl e | Inr body \<Rightarrow> eventId (property body ''event''))"

fun isAdd :: "effect \<Rightarrow> bool" where
  "isAdd (Add f) = True"
| "isAdd e = False"

fun isUncaught :: "effect \<Rightarrow> bool" where
  "isUncaught (Uncaught x) = True"
| "isUncaught e = False"

text \<open>How many of the requests with fingerprint \<open>f\<close> reached the agent, given the
  requests and the effects of each.\<close>

definition forwards :: "string \<Rightarrow> (env \<times> (error + js)) list \<Rightarrow> effect list list \<Rightarrow> nat" where
  "forwards f reqs traces =
     length (filter (\<lambda>(r, tr). fingerprint (snd r) = Inr f \<and> list_ex isGenerate tr)
               (zip reqs traces))"

section \<open>The identity-provider tools (tools/okta)\<close>

text \<open>
  Each tool is the \<^verbatim>\<open>execute\<close> function it is created with, given the fields of
  its \<^verbatim>\<open>context\<close> (strings, by the input schema). It returns the object the source
  returns, or what it throws. Its log lines are left out, except where writing one
  can throw.
\<close>

definition show_nat :: "nat \<Rightarrow> string" where
  "show_nat n = digits n"

text \<open>
  \<^verbatim>\<open>encodeURIComponent\<close>: letters, digits and \<^verbatim>\<open>- _ . ! ~ * ' ( )\<close> stay; every other
  code unit is written as the bytes of its UTF-8 encoding, each as \<^verbatim>\<open>%XX\<close>.
\<close>

definition hexDigit :: "nat \<Rightarrow> char" where
  "hexDigit n = ''0123456789ABCDEF'' ! n"

definition percent :: "nat \<Rightarrow> string" where
  "percent b = [CHR ''%'', hexDigit (b div 16), hexDigit (b mod 16)]"

definition unreserved :: "char \<Rightarrow> bool" where
  "unreserved c =
     (let n = (of_char c :: nat) in
      (65 \<le> n \<and> n \<le> 90) \<or> (97 \<le> n \<and> n \<le> 122) \<or> (48 \<le> n \<and> n \<le> 57) \<or>
      c \<in> set ''-_.!~*()'' \<or> n = 39)"

definition encodeChar :: "char \<Rightarrow> string" where
  "encodeChar c =
     (let n = (of_char c :: nat) in
      if unreserved c then [c]
      else if n < 128 then percent n
      else percent (192 + n div 64) @ percent (128 + n mod 64))"

definition encodeURIComponent :: "string \<Rightarrow> string" where
  "encodeURIComponent s = concat (map encodeChar s)"

definition getHeaders :: "env \<Rightarrow> (string \<times> string) list" where
  "getHeaders env =
     [(''Authorization'', ''SSWS '' @ env_str (OKTA_API_TOKEN env)),
      (''Accept'', ''application/json'')]"

text \<open>A request to \<^verbatim>\<open>${process.env.OKTA_ORG_URL}<path>\<close> with the headers of
  \<open>getHeaders\<close>.\<close>

definition oktaRequest :: "env \<Rightarrow> string \<Rightarrow> string \<Rightarrow> request" where
  "oktaRequest env m path =
     \<lparr>req_method = m, req_url = env_str (OKTA_ORG_URL env) @ path,
      req_headers = getHeaders env, req_body = None\<rparr>"

text \<open>\<^verbatim>\<open>users.length\<close> and \<^verbatim>\<open>users[0]\<close> on whatever \<^verbatim>\<open>res.json()\<close> gave.\<close>

definition lengthOf :: "js \<Rightarrow> error + js" where
  "lengthOf v =
     (case v of
        Undefined \<Rightarrow> Inl TypeError
      | Null \<Rightarrow> Inl TypeError
      | Arr xs \<Rightarrow> Inr (Num (int (length xs)))
      | Str s \<Rightarrow> Inr (Num (int (length s)))
      | _ \<Rightarrow> Inr (property v ''length''))"

definition first :: "js \<Rightarrow> error + js" where
  "first v =
     (case v of
        Undefined \<Rightarrow> Inl TypeError
      | Null \<Rightarrow> Inl TypeError
      | Arr xs \<Rightarrow> Inr (case xs of [] \<Rightarrow> Undefined | x # rest \<Rightarrow> x)
      | Str s \<Rightarrow> Inr (case s of [] \<Rightarrow> Undefined | c # rest \<Rightarrow> Str [c])
      | _ \<Rightarrow> Inr (property v ''0''))"

text \<open>
  \<open>findUserByEmail\<close>. Its \<^verbatim>\<open>catch\<close> logs and throws the same error again. Of the
  log lines only \<^verbatim>\<open>`[Okta] Found ${users.length} user(s)`\<close> can throw, and so is
  part of the result.
\<close>

definition findUserByEmail :: "env \<Rightarrow> string \<Rightarrow> error + js" where
  "findUserByEmail env email =
     (case fetch env (oktaRequest env ''GET''
            (''/api/v1/users?filter='' @
             encodeURIComponent (''profile.email eq '' @ quoted email))) of
        Inl e \<Rightarrow> Inl e
      | Inr res \<Rightarrow>
          if \<not> res_ok res
          then Inl (Error (''Okta API returned '' @ show_nat (res_status res) @ '': '' @ res_text res))
          else
            (case res_json res of
               None \<Rightarrow> Inl SyntaxError
             | Some users \<Rightarrow>
                 (case lengthOf users of
                    Inl e \<Rightarrow> Inl e
                  | Inr n \<Rightarrow>
                 (case toString n of
                    Inl e \<Rightarrow> Inl e
                  | Inr shown \<Rightarrow>
                 (case first users of
                    Inl e \<Rightarrow> Inl e
                  | Inr u \<Rightarrow> Inr (Obj [(''user'', if truthy u then u else Null)]))))))"

text \<open>\<open>resetPassword\<close> reads the JSON of the answer without looking at its status.\<close>

definition resetPassword :: "env \<Rightarrow> string \<Rightarrow> error + js" where
  "resetPassword env userId =
     (case fetch env (oktaRequest env ''POST''
            (''/api/v1/users/'' @ userId @ ''/lifecycle/reset_password?sendEmail=false'')) of
        Inl e \<Rightarrow> Inl e
      | Inr res \<Rightarrow>
          (case res_json res of
             None \<Rightarrow> Inl SyntaxError
           | Some result \<Rightarrow>
               (case get result ''resetPasswordUrl'' of
                  Inl e \<Rightarrow> Inl e
                | Inr u \<Rightarrow> Inr (Obj [(''resetPasswordUrl'', u)]))))"

definition lockUser :: "env \<Rightarrow> string \<Rightarrow> error + js" where
  "lockUser env userId =
     (case fetch env (oktaRequest env ''POST''
            (''/api/v1/users/'' @ userId @ ''/lifecycle/suspend'')) of
        Inl e \<Rightarrow> Inl e
      | Inr res \<Rightarrow>
          if \<not> res_ok res then Inl (Error (''Failed to lock user: '' @ res_text res))
          else Inr (Obj [(''success'', Bool True),
                         (''message'', Str ''User account has been locked'')]))"

definition unlockUser :: "env \<Rightarrow> string \<Rightarrow> error + js" where
  "unlockUser env userId =
     (case fetch env (oktaRequest env ''POST''
            (''/api/v1/users/'' @ userId @ ''/lifecycle/unsuspend'')) of
        Inl e \<Rightarrow> Inl e
      | Inr res \<Rightarrow>
          if \<not> res_ok res then Inl (Error (''Failed to unlock user: '' @ res_text res))
          else Inr (Obj [(''success'', Bool True),
                         (''message'', Str ''User account has been unlocked'')]))"

text \<open>\<^verbatim>\<open>g.profile.name.toLowerCase()\<close>: only a string has the method.\<close>

definition lowerName :: "js \<Rightarrow> error + string" where
  "lowerName g =
     (case get g ''profile'' of
        Inl e \<Rightarrow> Inl e
      | Inr p \<Rightarrow>
          (case get p ''name'' of
             Inl e \<Rightarrow> Inl e
           | Inr (Str n) \<Rightarrow> Inr (toLowerCase n)
           | Inr _ \<Rightarrow> Inl TypeError))"

text \<open>\<^verbatim>\<open>groups.find(g => g.profile.name.toLowerCase() === groupName.toLowerCase())\<close>
  on an array: the first element the test accepts, \<^verbatim>\<open>undefined\<close> when there is
  none; an element the test throws on ends the search with that error.\<close>

fun findGroup :: "string \<Rightarrow> js list \<Rightarrow> error + js" where
  "findGroup groupName [] = Inr Undefined"
| "findGroup groupName (g # gs) =
     (case lowerName g of
        Inl e \<Rightarrow> Inl e
      | Inr n \<Rightarrow> if n = toLowerCase groupName then Inr g else findGroup groupName gs)"

definition findGroupByName :: "env \<Rightarrow> string \<Rightarrow> error + js" where
  "findGroupByName env groupName =
     (case fetch env (oktaRequest env ''GET''
            (''/api/v1/groups?q='' @ encodeURIComponent groupName)) of
        Inl e \<Rightarrow> Inl e
      | Inr res \<Rightarrow>
          if \<not> res_ok res then Inl (Error (''Failed to search groups: '' @ res_text res))
          else
            (case res_json res of
               None \<Rightarrow> Inl SyntaxError
             | Some (Arr groups) \<Rightarrow>
                 (case findGroup groupName groups of
                    Inl e \<Rightarrow> Inl e
                  | Inr grp \<Rightarrow> Inr (Obj [(''group'', if truthy grp then grp else Null)]))
             | Some _ \<Rightarrow> Inl TypeError))"

definition addUserToGroup :: "env \<Rightarrow> string \<Rightarrow> string \<Rightarrow> error + js" where
  "addUserToGroup env userId groupId =
     (case fetch env (oktaRequest env ''PUT''
            (''/api/v1/groups/'' @ groupId @ ''/users/'' @ userId)) of
        Inl e \<Rightarrow> Inl e
      | Inr res \<Rightarrow>
          if \<not> res_ok res then Inl (Error (''Failed to add user to group: '' @ res_text res))
          else Inr (Obj [(''success'', Bool True),
                         (''message'', Str ''User has been added to the group'')]))"

definition resetMFA :: "env \<Rightarrow> string \<Rightarrow> error + js" where
  "resetMFA env userId =
     (case fetch env (oktaRequest env ''POST''
            (''/api/v1/users/'' @ userId @ ''/lifecycle/reset_factors'')) of
        Inl e \<Rightarrow> Inl e
      | Inr res \<Rightarrow>
          if \<not> res_ok res then Inl (Error (''Failed to reset MFA: '' @ res_text res))
          else Inr (Obj [(''success'', Bool True),
                         (''message'',
                          Str ''MFA factors have been reset. User will need to re-enroll.'')]))"

section \<open>Example worlds and requests\<close>

text \<open>A world in which the provider and the chat platform answer every request with
  \<open>res\<close> and the agent replies \<open>reply\<close>.\<close>

definition world :: "fetch_response \<Rightarrow> string \<Rightarrow> env" where
  "world res reply =
     \<lparr>SLACK_BOT_TOKEN = ''xoxb-1'',
      OKTA_ORG_URL = Some ''https://example.okta.com'',
      OKTA_API_TOKEN = Some ''00abc'',
      fetch = (\<lambda>r. Inr res),
      generate = (\<lambda>t. Inr reply)\<rparr>"

definition okEmpty :: fetch_response where
  "okEmpty = \<lparr>res_status = 200, res_text = ''[]'', res_json = Some (Arr [])\<rparr>"

definition notFound :: fetch_response where
  "notFound = \<lparr>res_status = 404, res_text = ''Not found'', res_json = None\<rparr>"

definition notFoundJson :: fetch_response where
  "notFoundJson = \<lparr>res_status = 404, res_text = ''{}'', res_json = Some (Obj [])\<rparr>"

text \<open>The spec's end-to-end event, and a second event of the same fingerprint.\<close>

definition helpEvent :: js where
  "helpEvent =
     Obj [(''type'', Str ''event_callback''),
          (''event'', Obj [(''type'', Str ''message''),
                           (''text'', Str ''help me reset my password''),
                           (''channel'', Str ''C1''), (''ts'', Str ''1.1'')])]"

definition textlessEvent :: js where
  "textlessEvent =
     Obj [(''type'', Str ''event_callback''),
          (''event'', Obj [(''type'', Str ''message''),
                           (''channel'', Str ''C1''), (''ts'', Str ''1.1'')])]"

definition botEvent :: js where
  "botEvent =
     Obj [(''type'', Str ''event_callback''),
          (''event'', Obj [(''type'', Str ''message''), (''bot_id'', Str ''B42''),
                           (''text'', Str ''Here is your reset link''),
                           (''channel'', Str ''C1''), (''ts'', Str ''1.2'')])]"

definition verification :: js where
  "verification =
     Obj [(''token'', Str ''Jhj5dZrVaK7ZwHHjRyZWjbDl''),
          (''challenge'', Str ''3eZbrw1aBm2rZgRNFdxV2595E9CY3gmdALWMmHkvFXO7tYXAYM8P''),
          (''type'', Str ''url_verification''),
          (''event'', Obj [(''type'', Str ''message''), (''text'', Str ''hello''),
                           (''channel'', Str ''C1''), (''ts'', Str ''1.3'')])]"

definition mentionEvent :: "string \<Rightarrow> js" where
  "mentionEvent text =
     Obj [(''type'', Str ''event_callback''),
          (''event'', Obj [(''type'', Str ''app_mention''), (''text'', Str text),
                           (''channel'', Str ''C1''), (''ts'', Str ''2.1'')])]"

text \<open>Two events that carry neither \<^verbatim>\<open>client_msg_id\<close> nor \<^verbatim>\<open>ts\<close>.\<close>

definition anonymousEvent :: "string \<Rightarrow> js" where
  "anonymousEvent text =
     Obj [(''type'', Str ''event_callback''),
          (''event'', Obj [(''type'', Str ''message''), (''text'', Str text),
                           (''channel'', Str ''C7'')])]"

text \<open>Group and user objects as the provider lists them.\<close>

definition groupObj :: "string \<Rightarrow> string \<Rightarrow> js" where
  "groupObj i n = Obj [(''id'', Str i), (''profile'', Obj [(''name'', Str n)])]"

definition userObj :: "string \<Rightarrow> string \<Rightarrow> js" where
  "userObj i email = Obj [(''id'', Str i), (''profile'', Obj [(''email'', Str email)])]"

definition groupJson :: "string \<Rightarrow> string \<Rightarrow> string" where
  "groupJson i n =
     ''{'' @ quoted ''id'' @ '':'' @ quoted i @ '','' @ quoted ''profile'' @ '':{'' @
     quoted ''name'' @ '':'' @ quoted n @ ''}}''"

definition userJson :: "string \<Rightarrow> string \<Rightarrow> string" where
  "userJson i email =
     ''{'' @ quoted ''id'' @ '':'' @ quoted i @ '','' @ quoted ''profile'' @ '':{'' @
     quoted ''email'' @ '':'' @ quoted email @ ''}}''"

definition twoGroups :: fetch_response where
  "twoGroups =
     \<lparr>res_status = 200,
      res_text = ''['' @ groupJson ''00g1'' ''Developers Team'' @ '','' @
                 groupJson ''00g2'' ''Developers'' @ '']'',
      res_json = Some (Arr [groupObj ''00g1'' ''Developers Team'',
                            groupObj ''00g2'' ''Developers''])\<rparr>"

definition oneGroup :: fetch_response where
  "oneGroup =
     \<lparr>res_status = 200,
      res_text = ''['' @ groupJson ''00g1'' ''Developers Team'' @ '']'',
      res_json = Some (Arr [groupObj ''00g1'' ''Developers Team''])\<rparr>"

definition twoUsers :: fetch_response where
  "twoUsers =
     \<lparr>res_status = 200,
      res_text = ''['' @ userJson ''00u1'' ''john@x.com'' @ '','' @
                 userJson ''00u2'' ''john@x.com'' @ '']'',
      res_json = Some (Arr [userObj ''00u1'' ''john@x.com'',
                            userObj ''00u2'' ''john@x.com''])\<rparr>"

section \<open>The shapes of a run of the handler\<close>

text \<open>Every run of the handler is one of seven shapes; the lemmas of this section read
  off them what the claims need.\<close>

lemma processMessage_inner:
  "list_all (\<lambda>e. \<not> isRespond e \<and> \<not> isUncaught e \<and> \<not> isAdd e) (processMessage env event)"
  by (simp add: processMessage_def split: sum.splits)

lemma handler_duplicate:
  assumes "body \<noteq> Null" "body \<noteq> Undefined"
    and "property body ''type'' \<noteq> Str ''url_verification''"
    and "\<not> truthy (oget (property body ''event'') ''bot_id'')"
    and "eventId (property body ''event'') = Inr f" and "f \<in> st"
  shows "handler env st (Inr body) =
           (st, [SetStatus 200, Log (''Skipping duplicate event: '' @ f), Respond 200 Empty])"
  using assms by (simp add: handler_def Let_def)

lemma handler_fresh:
  assumes "body \<noteq> Null" "body \<noteq> Undefined"
    and "property body ''type'' \<noteq> Str ''url_verification''"
    and "\<not> truthy (oget (property body ''event'') ''bot_id'')"
    and "eventId (property body ''event'') = Inr f" and "f \<notin> st"
  shows "handler env st (Inr body) =
           (insert f st,
            [SetStatus 200, Add f] @
            (if truthy (property body ''event'') \<and>
                (property (property body ''event'') ''type'' = Str ''message'' \<or>
                 property (property body ''event'') ''type'' = Str ''app_mention'') \<and>
                truthy (property (property body ''event'') ''text'')
             then processMessage env (property body ''event'') else []) @
            [Respond 200 Empty])"
  using assms by (simp add: handler_def Let_def)

lemma handler_cases:
  "(\<exists>e. handler env st req = (st, [Uncaught e])) \<or>
   (\<exists>c. handler env st req = (st, [Respond 200 (Json c)])) \<or>
   handler env st req = (st, [SetStatus 200, Respond 200 Empty]) \<or>
   (\<exists>e. handler env st req = (st, [SetStatus 200, Uncaught e])) \<or>
   (\<exists>f. fingerprint req = Inr f \<and> f \<in> st \<and>
        handler env st req = (st, [SetStatus 200, Log (''Skipping duplicate event: '' @ f), Respond 200 Empty])) \<or>
   (\<exists>f. fingerprint req = Inr f \<and> f \<notin> st \<and>
        handler env st req = (insert f st, [SetStatus 200, Add f, Respond 200 Empty])) \<or>
   (\<exists>f body. req = Inr body \<and> fingerprint req = Inr f \<and> f \<notin> st \<and>
        handler env st req =
          (insert f st, [SetStatus 200, Add f] @ processMessage env (property body ''event'') @ [Respond 200 Empty]))"
  by (cases req) (auto simp add: handler_def fingerprint_def Let_def split: sum.splits)

lemma generate_needs_fresh:
  assumes "list_ex isGenerate (snd (handler env st req))"
  shows "\<exists>f. fingerprint req = Inr f \<and> f \<notin> st \<and> fst (handler env st req) = insert f st"
  using handler_cases [of env st req] assms by auto

lemma handler_keeps: "f \<in> st \<Longrightarrow> f \<in> fst (handler env st req)"
  using handler_cases [of env st req] by auto

lemma serve_length: "length (serve st reqs) = length reqs"
  by (induction reqs arbitrary: st) auto

lemma forwards_Cons:
  "forwards f ((env, req) # reqs) (serve st ((env, req) # reqs)) =
     (if fingerprint req = Inr f \<and> list_ex isGenerate (snd (handler env st req)) then 1 else 0) +
     forwards f reqs (serve (fst (handler env st req)) reqs)"
  by (simp add: forwards_def)

lemma serve_known: "f \<in> st \<Longrightarrow> forwards f reqs (serve st reqs) = 0"
proof (induction reqs arbitrary: st)
  case Nil
  then show ?case by (simp add: forwards_def)
next
  case (Cons r reqs)
  obtain env req where r: "r = (env, req)" by (cases r)
  have "\<not> (fingerprint req = Inr f \<and> list_ex isGenerate (snd (handler env st req)))"
    using generate_needs_fresh [of env st req] Cons.prems by auto
  moreover have "forwards f reqs (serve (fst (handler env st req)) reqs) = 0"
    using Cons.IH [of "fst (handler env st req)"] handler_keeps [OF Cons.prems] by simp
  ultimately show ?case unfolding r forwards_Cons by simp
qed

lemma forwards_le_1: "forwards f reqs (serve st reqs) \<le> 1"
proof (induction reqs arbitrary: st)
  case Nil
  then show ?case by (simp add: forwards_def)
next
  case (Cons r reqs)
  obtain env req where r: "r = (env, req)" by (cases r)
  show ?case
  proof (cases "fingerprint req = Inr f \<and> list_ex isGenerate (snd (handler env st req))")
    case True
    then have "f \<in> fst (handler env st req)"
      using generate_needs_fresh [of env st req] by auto
    then have "forwards f reqs (serve (fst (handler env st req)) reqs) = 0"
      by (rule serve_known)
    with True show ?thesis unfolding r forwards_Cons by simp
  next
    case False
    then have "forwards f (r # reqs) (serve st (r # reqs)) =
        forwards f reqs (serve (fst (handler env st req)) reqs)"
      unfolding r forwards_Cons by auto
    then show ?thesis using Cons.IH [of "fst (handler env st req)"] by simp
  qed
qed

lemma add_before_agent:
  assumes "snd (handler env st req) = pre @ e # post" and "isGenerate e \<or> isFetch e"
  shows "\<exists>g. fingerprint req = Inr g \<and> g \<notin> st \<and> Add g \<in> set pre \<and> g \<in> fst (handler env st req)"
proof -
  from handler_cases [of env st req] assms
  obtain f body where req: "req = Inr body" and f: "fingerprint req = Inr f" "f \<notin> st"
    and h: "handler env st req =
          (insert f st, [SetStatus 200, Add f] @ processMessage env (property body ''event'') @ [Respond 200 Empty])"
    by (elim disjE exE conjE) (auto simp: Cons_eq_append_conv append_eq_Cons_conv)
  from h assms(1) have eq: "pre @ e # post = SetStatus 200 # Add f # (processMessage env (property body ''event'') @ [Respond 200 Empty])"
    by simp
  have "Add f \<in> set pre"
  proof (cases pre)
    case Nil
    with eq assms(2) show ?thesis by auto
  next
    case (Cons a pre')
    show ?thesis
    proof (cases pre')
      case Nil
      with eq Cons assms(2) show ?thesis by auto
    next
      case (Cons b pre'')
      with eq \<open>pre = a # pre'\<close> show ?thesis by auto
    qed
  qed
  with f h show ?thesis by auto
qed

lemma handler_ends:
  "\<exists>es t. snd (handler env st req) = es @ [t] \<and> (isRespond t \<or> isUncaught t) \<and>
     list_all (\<lambda>e. \<not> isRespond e \<and> \<not> isUncaught e) es"
proof -
  have pm: "list_all (\<lambda>e. \<not> isRespond e \<and> \<not> isUncaught e) (processMessage env ev)" for ev
    using processMessage_inner [of env ev] by (simp add: list_all_iff)
  from handler_cases [of env st req] show ?thesis
  proof (elim disjE exE conjE)
    fix f body
    assume "handler env st req =
          (insert f st, [SetStatus 200, Add f] @ processMessage env (property body ''event'') @ [Respond 200 Empty])"
    then have "snd (handler env st req) = ([SetStatus 200, Add f] @ processMessage env (property body ''event'')) @ [Respond 200 Empty]"
      by simp
    moreover have "list_all (\<lambda>e. \<not> isRespond e \<and> \<not> isUncaught e) ([SetStatus 200, Add f] @ processMessage env (property body ''event''))"
      using pm by simp
    ultimately show ?thesis by (intro exI [of _ "[SetStatus 200, Add f] @ processMessage env (property body ''event'')"] exI [of _ "Respond 200 Empty"]) simp
  next
    fix e assume "handler env st req = (st, [Uncaught e])"
    then show ?thesis by (intro exI [of _ "[]"] exI [of _ "Uncaught e"]) simp
  next
    fix c assume "handler env st req = (st, [Respond 200 (Json c)])"
    then show ?thesis by (intro exI [of _ "[]"] exI [of _ "Respond 200 (Json c)"]) simp
  next
    assume "handler env st req = (st, [SetStatus 200, Respond 200 Empty])"
    then show ?thesis by (intro exI [of _ "[SetStatus 200]"] exI [of _ "Respond 200 Empty"]) simp
  next
    fix e assume "handler env st req = (st, [SetStatus 200, Uncaught e])"
    then show ?thesis by (intro exI [of _ "[SetStatus 200]"] exI [of _ "Uncaught e"]) simp
  next
    fix f assume "handler env st req = (st, [SetStatus 200, Log (''Skipping duplicate event: '' @ f), Respond 200 Empty])"
    then show ?thesis by (intro exI [of _ "[SetStatus 200, Log (''Skipping duplicate event: '' @ f)]"] exI [of _ "Respond 200 Empty"]) simp
  next
    fix f assume "handler env st req = (insert f st, [SetStatus 200, Add f, Respond 200 Empty])"
    then show ?thesis by (intro exI [of _ "[SetStatus 200, Add f]"] exI [of _ "Respond 200 Empty"]) simp
  qed
qed

section \<open>The handshake\<close>

text \<open>
  Claim C5. A request whose \<^verbatim>\<open>type\<close> is the verification marker is answered with
  status 200 and the JSON object holding the challenge the request sent, whatever else
  the body holds. The test comes first, so nothing else happens: the set of processed
  events is as before, and the response is the handler's only effect (no addition to
  the set, no call of the agent, no reply posted).
\<close>

theorem verification_echo:
  "property body ''type'' = Str ''url_verification'' \<Longrightarrow>
   handler env processedEvents (Inr body) =
     (processedEvents, [Respond 200 (Json (Obj [(''challenge'', property body ''challenge'')]))])"
  by (cases body) (simp_all add: handler_def)

theorem verification_echo_witness:
  "property verification ''type'' = Str ''url_verification'' \<and>
   handler (world okEmpty ''hello'') {''1.3_C1''} (Inr verification) =
     ({''1.3_C1''},
      [Respond 200 (Json (Obj [(''challenge'',
         Str ''3eZbrw1aBm2rZgRNFdxV2595E9CY3gmdALWMmHkvFXO7tYXAYM8P'')]))])"
  using verification_echo [of verification "world okEmpty ''hello''" "{''1.3_C1''}"]
  by (simp add: verification_def)

section \<open>Events of bots\<close>

text \<open>
  Claim C6. An event whose \<^verbatim>\<open>bot_id\<close> is set (truthy) is never forwarded, whatever
  its text: the handler only answers (with the challenge when the request is a
  verification, with the empty acknowledgment otherwise). It does not call the agent,
  posts nothing, and leaves the set of processed events as it was.
\<close>

theorem bot_event_discarded:
  "truthy (oget (property body ''event'') ''bot_id'') \<Longrightarrow>
   handler env processedEvents (Inr body) =
     (processedEvents,
      if property body ''type'' = Str ''url_verification''
      then [Respond 200 (Json (Obj [(''challenge'', property body ''challenge'')]))]
      else [SetStatus 200, Respond 200 Empty]) \<and>
   \<not> list_ex isGenerate (snd (handler env processedEvents (Inr body))) \<and>
   \<not> list_ex isFetch (snd (handler env processedEvents (Inr body))) \<and>
   fst (handler env processedEvents (Inr body)) = processedEvents"
  by (cases body) (simp_all add: handler_def)

theorem bot_event_discarded_witness:
  "truthy (oget (property botEvent ''event'') ''bot_id'') \<and>
   handler (world okEmpty ''hello'') {} (Inr botEvent) = ({}, [SetStatus 200, Respond 200 Empty])"
  using bot_event_discarded [of botEvent "world okEmpty ''hello''" "{}"]
  by (simp add: botEvent_def)

section \<open>When the platform is answered\<close>

text \<open>
  Claim C1, as amended. The handler awaits the agent and the posting of the reply before
  it returns, and the response is what it returns. So for every request the response
  (or the exception nothing caught) is the last effect of the run, after every call of
  the agent and every post; \<^verbatim>\<open>c.status(200)\<close>, which comes early, sends nothing.
  For a request that is not a verification, whose body is not \<^verbatim>\<open>null\<close>, and that
  is a bot's event or has a fingerprint, that last effect is the empty acknowledgment
  with status 200.
\<close>

theorem acknowledgment_after_completion:
  "(\<exists>es t. snd (handler env st req) = es @ [t] \<and> (isRespond t \<or> isUncaught t) \<and>
      list_all (\<lambda>e. \<not> isRespond e \<and> \<not> isUncaught e) es) \<and>
   (body \<noteq> Null \<and> body \<noteq> Undefined \<and> property body ''type'' \<noteq> Str ''url_verification'' \<and>
    (truthy (oget (property body ''event'') ''bot_id'') \<or>
     eventId (property body ''event'') = Inr f) \<longrightarrow>
    (\<exists>es. snd (handler env st (Inr body)) = es @ [Respond 200 Empty] \<and>
       list_all (\<lambda>e. \<not> isRespond e \<and> \<not> isUncaught e) es))"
proof (intro conjI impI)
  show "\<exists>es t. snd (handler env st req) = es @ [t] \<and> (isRespond t \<or> isUncaught t) \<and>
      list_all (\<lambda>e. \<not> isRespond e \<and> \<not> isUncaught e) es"
    by (rule handler_ends)
next
  assume a: "body \<noteq> Null \<and> body \<noteq> Undefined \<and> property body ''type'' \<noteq> Str ''url_verification'' \<and>
    (truthy (oget (property body ''event'') ''bot_id'') \<or>
     eventId (property body ''event'') = Inr f)"
  obtain es t where h: "snd (handler env st (Inr body)) = es @ [t]"
    and q: "list_all (\<lambda>e. \<not> isRespond e \<and> \<not> isUncaught e) es"
    using handler_ends [of env st "Inr body"] by blast
  have "last (snd (handler env st (Inr body))) = Respond 200 Empty"
    using a by (auto simp: handler_def Let_def)
  with h have "t = Respond 200 Empty" by simp
  with h q show "\<exists>es. snd (handler env st (Inr body)) = es @ [Respond 200 Empty] \<and>
       list_all (\<lambda>e. \<not> isRespond e \<and> \<not> isUncaught e) es"
    by blast
qed

theorem acknowledgment_after_completion_witness:
  "helpEvent \<noteq> Null \<and> helpEvent \<noteq> Undefined \<and>
   property helpEvent ''type'' \<noteq> Str ''url_verification'' \<and>
   eventId (property helpEvent ''event'') = Inr ''1.1_C1'' \<and>
   (\<exists>es. snd (handler (world okEmpty ''Here is your reset link'') {} (Inr helpEvent)) =
           es @ [Respond 200 Empty] \<and>
         list_all (\<lambda>e. \<not> isRespond e \<and> \<not> isUncaught e) es)"
  using acknowledgment_after_completion
    [of "world okEmpty ''Here is your reset link''" "{}" "Inr helpEvent" helpEvent "''1.1_C1''"]
  by (simp add: helpEvent_def eventId_def)

text \<open>
  Claim C1 as stated fails: for the spec's end-to-end event the acknowledgment comes
  after the agent has been called and the reply has been posted, not before.
\<close>

theorem acknowledgment_waits_counterexample:
  "snd (handler (world okEmpty ''Here is your reset link'') {} (Inr helpEvent)) =
     [SetStatus 200,
      Add ''1.1_C1'',
      Log (''Processing message: '' @ quoted ''help me reset my password''),
      Generate (Str ''help me reset my password''),
      Fetch (postMessage (world okEmpty ''Here is your reset link'') (Str ''C1'')
               ''Here is your reset link''),
      Respond 200 Empty]"
  by (simp add: handler_def helpEvent_def eventId_def processMessage_def world_def)

section \<open>Deduplication\<close>

lemma helpEvent_run:
  "handler (world okEmpty ''Here is your reset link'') {} (Inr helpEvent) =
     ({''1.1_C1''},
      [SetStatus 200,
       Add ''1.1_C1'',
       Log (''Processing message: '' @ quoted ''help me reset my password''),
       Generate (Str ''help me reset my password''),
       Fetch (postMessage (world okEmpty ''Here is your reset link'') (Str ''C1'')
                ''Here is your reset link''),
       Respond 200 Empty])"
  by (simp add: handler_def helpEvent_def eventId_def processMessage_def world_def)

text \<open>
  Claim C3. Among requests served between two runs of the timer, from any state of the
  set, at most one of those with a given fingerprint reaches the agent. Whenever the
  handler calls the agent or posts a reply, it has added the fingerprint to the set
  earlier in the same run, and the fingerprint was not in the set before. An event that
  gets as far as the test and whose fingerprint is in the set is only logged as a
  duplicate and acknowledged: no call of the agent, no reply, the set unchanged. The
  timer's callback empties the set, every 300000 milliseconds.
\<close>

theorem dedup_within_window:
  "forwards f reqs (serve processedEvents reqs) \<le> 1 \<and>
   (snd (handler env processedEvents req) = pre @ e # post \<and> (isGenerate e \<or> isFetch e) \<longrightarrow>
      (\<exists>g. fingerprint req = Inr g \<and> g \<notin> processedEvents \<and> Add g \<in> set pre \<and>
           g \<in> fst (handler env processedEvents req))) \<and>
   (body \<noteq> Null \<and> body \<noteq> Undefined \<and> property body ''type'' \<noteq> Str ''url_verification'' \<and>
    \<not> truthy (oget (property body ''event'') ''bot_id'') \<and>
    eventId (property body ''event'') = Inr d \<and> d \<in> processedEvents \<longrightarrow>
      handler env processedEvents (Inr body) =
        (processedEvents,
         [SetStatus 200, Log (''Skipping duplicate event: '' @ d), Respond 200 Empty])) \<and>
   clear processedEvents = {} \<and> EVENT_EXPIRY_MS = 300000"
proof (intro conjI impI)
  show "forwards f reqs (serve processedEvents reqs) \<le> 1" by (rule forwards_le_1)
next
  assume "snd (handler env processedEvents req) = pre @ e # post \<and> (isGenerate e \<or> isFetch e)"
  then show "\<exists>g. fingerprint req = Inr g \<and> g \<notin> processedEvents \<and> Add g \<in> set pre \<and>
           g \<in> fst (handler env processedEvents req)"
    using add_before_agent [of env processedEvents req pre e post] by blast
next
  assume "body \<noteq> Null \<and> body \<noteq> Undefined \<and> property body ''type'' \<noteq> Str ''url_verification'' \<and>
    \<not> truthy (oget (property body ''event'') ''bot_id'') \<and>
    eventId (property body ''event'') = Inr d \<and> d \<in> processedEvents"
  then show "handler env processedEvents (Inr body) =
        (processedEvents,
         [SetStatus 200, Log (''Skipping duplicate event: '' @ d), Respond 200 Empty])"
    using handler_duplicate [of body d processedEvents env] by blast
next
  show "clear processedEvents = {}" by (simp add: clear_def)
next
  show "EVENT_EXPIRY_MS = 300000" by (simp add: EVENT_EXPIRY_MS_def)
qed

theorem dedup_within_window_witness:
  "serve {} [(world okEmpty ''Here is your reset link'', Inr helpEvent),
             (world okEmpty ''Here is your reset link'', Inr helpEvent)] =
     [[SetStatus 200,
       Add ''1.1_C1'',
       Log (''Processing message: '' @ quoted ''help me reset my password''),
       Generate (Str ''help me reset my password''),
       Fetch (postMessage (world okEmpty ''Here is your reset link'') (Str ''C1'')
                ''Here is your reset link''),
       Respond 200 Empty],
      [SetStatus 200, Log ''Skipping duplicate event: 1.1_C1'', Respond 200 Empty]] \<and>
   forwards ''1.1_C1''
     [(world okEmpty ''Here is your reset link'', Inr helpEvent),
      (world okEmpty ''Here is your reset link'', Inr helpEvent)]
     (serve {} [(world okEmpty ''Here is your reset link'', Inr helpEvent),
                (world okEmpty ''Here is your reset link'', Inr helpEvent)]) \<le> 1 \<and>
   (\<exists>g. fingerprint (Inr helpEvent) = Inr g \<and> g \<notin> {} \<and>
        Add g \<in> set [SetStatus 200, Add ''1.1_C1'',
                      Log (''Processing message: '' @ quoted ''help me reset my password'')] \<and>
        g \<in> fst (handler (world okEmpty ''Here is your reset link'') {} (Inr helpEvent))) \<and>
   helpEvent \<noteq> Null \<and> helpEvent \<noteq> Undefined \<and>
   property helpEvent ''type'' \<noteq> Str ''url_verification'' \<and>
   \<not> truthy (oget (property helpEvent ''event'') ''bot_id'') \<and>
   eventId (property helpEvent ''event'') = Inr ''1.1_C1'' \<and>
   handler (world okEmpty ''Here is your reset link'') {''1.1_C1''} (Inr helpEvent) =
     ({''1.1_C1''}, [SetStatus 200, Log ''Skipping duplicate event: 1.1_C1'', Respond 200 Empty])"
proof -
  let ?w = "world okEmpty ''Here is your reset link''"
  let ?pre = "[SetStatus 200, Add ''1.1_C1'',
               Log (''Processing message: '' @ quoted ''help me reset my password'')]"
  let ?post = "[Fetch (postMessage ?w (Str ''C1'') ''Here is your reset link''), Respond 200 Empty]"
  have e: "eventId (property helpEvent ''event'') = Inr ''1.1_C1''"
    by (simp add: helpEvent_def eventId_def)
  have p: "helpEvent \<noteq> Null \<and> helpEvent \<noteq> Undefined \<and>
      property helpEvent ''type'' \<noteq> Str ''url_verification'' \<and>
      \<not> truthy (oget (property helpEvent ''event'') ''bot_id'')"
    by (simp add: helpEvent_def)
  have first: "snd (handler ?w {} (Inr helpEvent)) =
      ?pre @ Generate (Str ''help me reset my password'') # ?post"
    by (simp add: helpEvent_run)
  have d: "handler ?w {''1.1_C1''} (Inr helpEvent) =
     ({''1.1_C1''}, [SetStatus 200, Log (''Skipping duplicate event: '' @ ''1.1_C1''), Respond 200 Empty])"
    using dedup_within_window [of "''1.1_C1''" "[(?w, Inr helpEvent), (?w, Inr helpEvent)]"
        "{''1.1_C1''}" ?w "Inr helpEvent" ?pre "Generate (Str ''help me reset my password'')"
        ?post helpEvent "''1.1_C1''"] e p
    by simp
  have s: "serve {} [(?w, Inr helpEvent), (?w, Inr helpEvent)] =
      [snd (handler ?w {} (Inr helpEvent)), snd (handler ?w {''1.1_C1''} (Inr helpEvent))]"
    by (simp add: helpEvent_run)
  have f: "forwards ''1.1_C1'' [(?w, Inr helpEvent), (?w, Inr helpEvent)]
       (serve {} [(?w, Inr helpEvent), (?w, Inr helpEvent)]) \<le> 1 \<and>
     (\<exists>g. fingerprint (Inr helpEvent) = Inr g \<and> g \<notin> {} \<and> Add g \<in> set ?pre \<and>
        g \<in> fst (handler ?w {} (Inr helpEvent)))"
    using dedup_within_window [of "''1.1_C1''" "[(?w, Inr helpEvent), (?w, Inr helpEvent)]" "{}"
        ?w "Inr helpEvent" ?pre "Generate (Str ''help me reset my password'')"
        ?post helpEvent "''1.1_C1''"] first
    by simp
  show ?thesis using e p d s f by (simp add: helpEvent_run)
qed

text \<open>
  Claim C9. An event that is not a bot's and whose fingerprint is new has the
  fingerprint added to the set before its type and text are looked at: the set
  afterwards holds it whatever they are, and an event of another type or without text
  does nothing else but get acknowledged. A later event of the same fingerprint is then
  discarded as a duplicate, even when it carries text.
\<close>

theorem fingerprint_consumed_before_checks:
  assumes "body \<noteq> Null" and "body \<noteq> Undefined"
    and "property body ''type'' \<noteq> Str ''url_verification''"
    and "\<not> truthy (oget (property body ''event'') ''bot_id'')"
    and "eventId (property body ''event'') = Inr f" and "f \<notin> processedEvents"
    and "later \<noteq> Null" and "later \<noteq> Undefined"
    and "property later ''type'' \<noteq> Str ''url_verification''"
    and "\<not> truthy (oget (property later ''event'') ''bot_id'')"
    and "eventId (property later ''event'') = Inr f"
  shows "fst (handler env processedEvents (Inr body)) = insert f processedEvents \<and>
    (\<exists>rest. snd (handler env processedEvents (Inr body)) = SetStatus 200 # Add f # rest) \<and>
    (\<not> (property (property body ''event'') ''type'' = Str ''message'' \<or>
         property (property body ''event'') ''type'' = Str ''app_mention'') \<or>
     \<not> truthy (property (property body ''event'') ''text'') \<longrightarrow>
       handler env processedEvents (Inr body) =
         (insert f processedEvents, [SetStatus 200, Add f, Respond 200 Empty])) \<and>
    handler env' (fst (handler env processedEvents (Inr body))) (Inr later) =
      (insert f processedEvents,
       [SetStatus 200, Log (''Skipping duplicate event: '' @ f), Respond 200 Empty])"
proof -
  note fresh = handler_fresh [OF assms(1-6), of env]
  have st: "fst (handler env processedEvents (Inr body)) = insert f processedEvents"
    by (simp add: fresh)
  have "f \<in> insert f processedEvents" by simp
  note dup = handler_duplicate [OF assms(7-11) this, of env']
  show ?thesis
  proof (intro conjI impI)
    show "fst (handler env processedEvents (Inr body)) = insert f processedEvents" by (rule st)
    show "\<exists>rest. snd (handler env processedEvents (Inr body)) = SetStatus 200 # Add f # rest"
      by (simp add: fresh)
    show "handler env' (fst (handler env processedEvents (Inr body))) (Inr later) =
      (insert f processedEvents,
       [SetStatus 200, Log (''Skipping duplicate event: '' @ f), Respond 200 Empty])"
      unfolding st by (rule dup)
  next
    assume "\<not> (property (property body ''event'') ''type'' = Str ''message'' \<or>
         property (property body ''event'') ''type'' = Str ''app_mention'') \<or>
     \<not> truthy (property (property body ''event'') ''text'')"
    then show "handler env processedEvents (Inr body) =
         (insert f processedEvents, [SetStatus 200, Add f, Respond 200 Empty])"
      unfolding fresh by auto
  qed
qed

theorem fingerprint_consumed_before_checks_witness:
  "textlessEvent \<noteq> Null \<and> textlessEvent \<noteq> Undefined \<and>
   property textlessEvent ''type'' \<noteq> Str ''url_verification'' \<and>
   \<not> truthy (oget (property textlessEvent ''event'') ''bot_id'') \<and>
   eventId (property textlessEvent ''event'') = Inr ''1.1_C1'' \<and> ''1.1_C1'' \<notin> {} \<and>
   \<not> truthy (property (property textlessEvent ''event'') ''text'') \<and>
   helpEvent \<noteq> Null \<and> helpEvent \<noteq> Undefined \<and>
   property helpEvent ''type'' \<noteq> Str ''url_verification'' \<and>
   \<not> truthy (oget (property helpEvent ''event'') ''bot_id'') \<and>
   eventId (property helpEvent ''event'') = Inr ''1.1_C1'' \<and>
   truthy (property (property helpEvent ''event'') ''text'') \<and>
   handler (world okEmpty ''hello'') {} (Inr textlessEvent) =
     ({''1.1_C1''}, [SetStatus 200, Add ''1.1_C1'', Respond 200 Empty]) \<and>
   handler (world okEmpty ''Here is your reset link'')
       (fst (handler (world okEmpty ''hello'') {} (Inr textlessEvent))) (Inr helpEvent) =
     ({''1.1_C1''}, [SetStatus 200, Log ''Skipping duplicate event: 1.1_C1'', Respond 200 Empty])"
proof -
  have a: "textlessEvent \<noteq> Null" "textlessEvent \<noteq> Undefined"
    "property textlessEvent ''type'' \<noteq> Str ''url_verification''"
    "\<not> truthy (oget (property textlessEvent ''event'') ''bot_id'')"
    "eventId (property textlessEvent ''event'') = Inr ''1.1_C1''" "''1.1_C1'' \<notin> {}"
    by (simp_all add: textlessEvent_def eventId_def)
  have b: "helpEvent \<noteq> Null" "helpEvent \<noteq> Undefined"
    "property helpEvent ''type'' \<noteq> Str ''url_verification''"
    "\<not> truthy (oget (property helpEvent ''event'') ''bot_id'')"
    "eventId (property helpEvent ''event'') = Inr ''1.1_C1''"
    by (simp_all add: helpEvent_def eventId_def)
  have c: "\<not> truthy (property (property textlessEvent ''event'') ''text'')"
    "truthy (property (property helpEvent ''event'') ''text'')"
    by (simp_all add: textlessEvent_def helpEvent_def)
  note r = fingerprint_consumed_before_checks [OF a b,
        of "world okEmpty ''hello''" "world okEmpty ''Here is your reset link''"]
  from r c have h1: "handler (world okEmpty ''hello'') {} (Inr textlessEvent) =
     ({''1.1_C1''}, [SetStatus 200, Add ''1.1_C1'', Respond 200 Empty])"
    by blast
  from r have h2: "handler (world okEmpty ''Here is your reset link'')
       (fst (handler (world okEmpty ''hello'') {} (Inr textlessEvent))) (Inr helpEvent) =
     ({''1.1_C1''}, [SetStatus 200, Log (''Skipping duplicate event: '' @ ''1.1_C1''), Respond 200 Empty])"
    by blast
  then have h3: "handler (world okEmpty ''Here is your reset link'')
       (fst (handler (world okEmpty ''hello'') {} (Inr textlessEvent))) (Inr helpEvent) =
     ({''1.1_C1''}, [SetStatus 200, Log ''Skipping duplicate event: 1.1_C1'', Respond 200 Empty])"
    by simp
  from a b c h1 h3 show ?thesis by blast
qed

text \<open>
  Claim C10. An event with neither \<^verbatim>\<open>client_msg_id\<close> nor \<^verbatim>\<open>ts\<close> has the
  fingerprint \<^verbatim>\<open>undefined_\<close> followed by its channel. So of two such events in the
  same channel, served with no run of the timer between them, the second is discarded
  as a duplicate and does not reach the agent, whatever the two events say.
\<close>

theorem missing_ids_share_fingerprint:
  assumes "property (property body ''event'') ''client_msg_id'' = Undefined"
    and "property (property body ''event'') ''ts'' = Undefined"
    and "toString (property (property body ''event'') ''channel'') = Inr ch"
    and "body \<noteq> Null" and "body \<noteq> Undefined"
    and "property body ''type'' \<noteq> Str ''url_verification''"
    and "\<not> truthy (oget (property body ''event'') ''bot_id'')"
    and "property (property later ''event'') ''client_msg_id'' = Undefined"
    and "property (property later ''event'') ''ts'' = Undefined"
    and "toString (property (property later ''event'') ''channel'') = Inr ch"
    and "later \<noteq> Null" and "later \<noteq> Undefined"
    and "property later ''type'' \<noteq> Str ''url_verification''"
    and "\<not> truthy (oget (property later ''event'') ''bot_id'')"
  shows "eventId (property body ''event'') = Inr (''undefined_'' @ ch) \<and>
    eventId (property later ''event'') = Inr (''undefined_'' @ ch) \<and>
    handler env' (fst (handler env processedEvents (Inr body))) (Inr later) =
      (insert (''undefined_'' @ ch) processedEvents,
       [SetStatus 200, Log (''Skipping duplicate event: undefined_'' @ ch), Respond 200 Empty])"
proof -
  have e1: "eventId (property body ''event'') = Inr (''undefined_'' @ ch)"
    using assms(1-3) by (simp add: eventId_def)
  have e2: "eventId (property later ''event'') = Inr (''undefined_'' @ ch)"
    using assms(8-10) by (simp add: eventId_def)
  have st: "fst (handler env processedEvents (Inr body)) = insert (''undefined_'' @ ch) processedEvents"
  proof (cases "''undefined_'' @ ch \<in> processedEvents")
    case True
    then show ?thesis
      using handler_duplicate [OF assms(4-7) e1 True, of env] by auto
  next
    case False
    then show ?thesis
      using handler_fresh [OF assms(4-7) e1 False, of env] by simp
  qed
  have "''undefined_'' @ ch \<in> insert (''undefined_'' @ ch) processedEvents" by simp
  from handler_duplicate [OF assms(11-14) e2 this, of env'] e1 e2 st
  show ?thesis by simp
qed

theorem missing_ids_share_fingerprint_witness:
  "property (property (anonymousEvent ''lock my account'') ''event'') ''client_msg_id'' = Undefined \<and>
   property (property (anonymousEvent ''lock my account'') ''event'') ''ts'' = Undefined \<and>
   property (property (anonymousEvent ''reset my MFA'') ''event'') ''client_msg_id'' = Undefined \<and>
   property (property (anonymousEvent ''reset my MFA'') ''event'') ''ts'' = Undefined \<and>
   eventId (property (anonymousEvent ''lock my account'') ''event'') = Inr ''undefined_C7'' \<and>
   eventId (property (anonymousEvent ''reset my MFA'') ''event'') = Inr ''undefined_C7'' \<and>
   list_ex isGenerate
     (snd (handler (world okEmpty ''Locked'') {} (Inr (anonymousEvent ''lock my account'')))) \<and>
   handler (world okEmpty ''MFA reset'')
       (fst (handler (world okEmpty ''Locked'') {} (Inr (anonymousEvent ''lock my account''))))
       (Inr (anonymousEvent ''reset my MFA'')) =
     ({''undefined_C7''},
      [SetStatus 200, Log ''Skipping duplicate event: undefined_C7'', Respond 200 Empty])"
proof -
  have a: "property (property (anonymousEvent t) ''event'') ''client_msg_id'' = Undefined"
    "property (property (anonymousEvent t) ''event'') ''ts'' = Undefined"
    "toString (property (property (anonymousEvent t) ''event'') ''channel'') = Inr ''C7''"
    "anonymousEvent t \<noteq> Null" "anonymousEvent t \<noteq> Undefined"
    "property (anonymousEvent t) ''type'' \<noteq> Str ''url_verification''"
    "\<not> truthy (oget (property (anonymousEvent t) ''event'') ''bot_id'')" for t
    by (simp_all add: anonymousEvent_def)
  have g: "list_ex isGenerate
     (snd (handler (world okEmpty ''Locked'') {} (Inr (anonymousEvent ''lock my account''))))"
    by (simp add: handler_def anonymousEvent_def eventId_def processMessage_def world_def)
  show ?thesis
    using missing_ids_share_fingerprint [OF a a, of "''lock my account''" "''reset my MFA''"
        "world okEmpty ''MFA reset''" "world okEmpty ''Locked''" "{}"] a g
    by simp
qed

section \<open>The text of a mention\<close>

lemma matchMention_other: "c \<noteq> CHR ''<'' \<Longrightarrow> matchMention (c # s) = None"
  by (simp add: matchMention_def split: list.splits)

lemma removeMentions_plain: "CHR ''<'' \<notin> set pre \<Longrightarrow> removeMentions (pre @ s) = pre @ removeMentions s"
  by (induction pre) (auto simp: matchMention_other)

lemma matchMention_token:
  assumes "ident \<noteq> []" and "list_all isMentionChar ident" and "list_all isSpace ws"
    and "rest = [] \<or> \<not> isSpace (hd rest)"
  shows "matchMention (''<@'' @ ident @ ''>'' @ ws @ rest) = Some rest"
proof -
  have gt: "\<not> isMentionChar CHR ''>''" by (simp add: isMentionChar_def)
  from assms(2) have all: "\<forall>c\<in>set ident. isMentionChar c" by (simp add: list_all_iff)
  have tw: "takeWhile isMentionChar (ident @ ''>'' @ ws @ rest) = ident"
    using all gt by (simp add: takeWhile_append2)
  have dw: "dropWhile isMentionChar (ident @ ''>'' @ ws @ rest) = ''>'' @ ws @ rest"
    using all gt by (simp add: dropWhile_append2)
  from assms(3) have sp: "\<forall>c\<in>set ws. isSpace c" by (simp add: list_all_iff)
  have ds: "dropWhile isSpace (ws @ rest) = rest"
    using sp assms(4) by (cases rest) (simp_all add: dropWhile_append2)
  show ?thesis using assms(1) tw dw ds by (simp add: matchMention_def)
qed

lemma removeMentions_token:
  assumes "ident \<noteq> []" and "list_all isMentionChar ident" and "list_all isSpace ws"
    and "rest = [] \<or> \<not> isSpace (hd rest)"
  shows "removeMentions (''<@'' @ ident @ ''>'' @ ws @ rest) = removeMentions rest"
proof -
  have "removeMentions (CHR ''<'' # (''@'' @ ident @ ''>'' @ ws @ rest)) = removeMentions rest"
    using matchMention_token [OF assms] by (simp only: removeMentions.simps append_Cons append_Nil option.case)
  then show ?thesis by simp
qed

lemma lt_plain: "\<not> isMentionChar CHR ''<''" "\<not> isSpace CHR ''<''"
  by (simp_all add: isMentionChar_def isSpace_def)

lemma while_append:
  assumes "\<exists>a\<in>set r. \<not> P a"
  shows "takeWhile P (r @ x) = takeWhile P r" and "dropWhile P (r @ x) = dropWhile P r @ x"
proof -
  from assms obtain a where "a \<in> set r" "\<not> P a" by blast
  then show "takeWhile P (r @ x) = takeWhile P r" and "dropWhile P (r @ x) = dropWhile P r @ x"
    by simp_all
qed

lemma matchMention_append_Some:
  assumes "matchMention p = Some r" and "x = [] \<or> hd x = CHR ''<''"
  shows "matchMention (p @ x) = Some (r @ x)"
proof -
  from assms(1) obtain r0 where p: "p = CHR ''<'' # CHR ''@'' # r0"
    by (auto simp: matchMention_def split: list.splits if_splits)
  from assms(1) p obtain t where tw: "takeWhile isMentionChar r0 \<noteq> []"
    and dw: "dropWhile isMentionChar r0 = CHR ''>'' # t" and r: "r = dropWhile isSpace t"
    by (auto simp: matchMention_def split: list.splits if_splits)
  from dw have ex: "\<exists>c\<in>set r0. \<not> isMentionChar c"
    by (metis dropWhile_eq_Nil_conv list.distinct(1))
  have tw': "takeWhile isMentionChar (r0 @ x) = takeWhile isMentionChar r0"
    using ex by (rule while_append)
  have dw': "dropWhile isMentionChar (r0 @ x) = CHR ''>'' # (t @ x)"
    using while_append(2) [OF ex, of x] dw by simp
  have sp: "dropWhile isSpace (t @ x) = dropWhile isSpace t @ x"
  proof (cases "\<exists>c\<in>set t. \<not> isSpace c")
    case True
    then show ?thesis by (rule while_append)
  next
    case False
    then have "dropWhile isSpace t = []" by simp
    moreover have "dropWhile isSpace (t @ x) = dropWhile isSpace x"
      using False by (simp add: dropWhile_append2)
    moreover have "dropWhile isSpace x = x"
      using assms(2) lt_plain(2) by (cases x) auto
    ultimately show ?thesis by simp
  qed
  show ?thesis using p tw tw' dw' sp r by (simp add: matchMention_def)
qed

lemma matchMention_append_None:
  assumes "matchMention (c # s) = None" and "x = [] \<or> hd x = CHR ''<''"
  shows "matchMention (c # s @ x) = None"
proof (cases s)
  case Nil
  then show ?thesis using assms(2) by (cases x) (auto simp: matchMention_def)
next
  case (Cons c2 r0)
  have hx: "takeWhile isMentionChar x = []" "dropWhile isMentionChar x = x"
    using assms(2) lt_plain(1) by (cases x; auto)+
  show ?thesis
  proof (cases "c = CHR ''<'' \<and> c2 = CHR ''@''")
    case False
    then show ?thesis using Cons by (auto simp: matchMention_def)
  next
    case True
    show ?thesis
    proof (cases "\<exists>a\<in>set r0. \<not> isMentionChar a")
      case ex: True
      then have "takeWhile isMentionChar (r0 @ x) = takeWhile isMentionChar r0"
        "dropWhile isMentionChar (r0 @ x) = dropWhile isMentionChar r0 @ x"
        by (rule while_append)+
      moreover from ex have "dropWhile isMentionChar r0 \<noteq> []" by simp
      ultimately show ?thesis
        using assms(1) Cons True
        by (auto simp: matchMention_def split: list.splits if_splits)
    next
      case all: False
      then have d: "dropWhile isMentionChar (r0 @ x) = x"
        using hx by simp
      have "(case dropWhile isMentionChar (r0 @ x) of
               [] \<Rightarrow> None
             | c3 # t \<Rightarrow> if c3 = CHR ''>'' then Some (dropWhile isSpace t) else None) = None"
        unfolding d using assms(2) by (cases x) auto
      then show ?thesis
        using Cons by (simp add: matchMention_def)
    qed
  qed
qed

lemma removeMentions_append:
  "x = [] \<or> hd x = CHR ''<'' \<Longrightarrow> removeMentions (p @ x) = removeMentions p @ removeMentions x"
proof (induction p rule: removeMentions.induct)
  case 1
  then show ?case by simp
next
  case (2 c s)
  show ?case
  proof (cases "matchMention (c # s)")
    case None
    then have "matchMention (c # s @ x) = None"
      using "2.prems" by (rule matchMention_append_None)
    with None "2.IH"(1) "2.prems" show ?thesis by simp
  next
    case (Some r)
    then have "matchMention ((c # s) @ x) = Some (r @ x)"
      using "2.prems" by (rule matchMention_append_Some)
    with Some "2.IH"(2) "2.prems" show ?thesis by simp
  qed
qed

lemma processMessage_mention:
  assumes "property event ''type'' = Str ''app_mention''" and "property event ''text'' = Str s"
  shows "filter isGenerate (processMessage env event) = [Generate (Str (trim (removeMentions s)))]"
  using assms by (simp add: processMessage_def stripMentions_def split: sum.splits)

text \<open>
  Claim C4, as amended. For a mention event whose text is a non-empty string, and that
  gets past the tests before, the agent is called once, with the text from which every
  mention token has been deleted and which has then been trimmed. A mention token is
  \<^verbatim>\<open><@\<close>, one or more of A to Z and 0 to 9, and \<^verbatim>\<open>>\<close>; it goes together with the
  white space after it, wherever it stands: what comes before it and what comes after
  it are each cleared of their own tokens and put together. A text without \<^verbatim>\<open><\<close>
  is left as it is. So \<^verbatim>\<open><@U123ABC> reset my password\<close> gives
  \<^verbatim>\<open>reset my password\<close>.
\<close>

theorem mention_tokens_removed:
  "(body \<noteq> Null \<and> body \<noteq> Undefined \<and> property body ''type'' \<noteq> Str ''url_verification'' \<and>
    \<not> truthy (oget (property body ''event'') ''bot_id'') \<and>
    eventId (property body ''event'') = Inr f \<and> f \<notin> processedEvents \<and>
    property (property body ''event'') ''type'' = Str ''app_mention'' \<and>
    property (property body ''event'') ''text'' = Str s \<and> s \<noteq> [] \<longrightarrow>
      filter isGenerate (snd (handler env processedEvents (Inr body))) =
        [Generate (Str (trim (removeMentions s)))]) \<and>
   (ident \<noteq> [] \<and> list_all isMentionChar ident \<and> list_all isSpace ws \<and>
    (rest = [] \<or> \<not> isSpace (hd rest)) \<longrightarrow>
      removeMentions (pre @ ''<@'' @ ident @ ''>'' @ ws @ rest) =
        removeMentions pre @ removeMentions rest) \<and>
   (CHR ''<'' \<notin> set s \<longrightarrow> removeMentions s = s)"
proof (intro conjI impI)
  assume a: "body \<noteq> Null \<and> body \<noteq> Undefined \<and> property body ''type'' \<noteq> Str ''url_verification'' \<and>
    \<not> truthy (oget (property body ''event'') ''bot_id'') \<and>
    eventId (property body ''event'') = Inr f \<and> f \<notin> processedEvents \<and>
    property (property body ''event'') ''type'' = Str ''app_mention'' \<and>
    property (property body ''event'') ''text'' = Str s \<and> s \<noteq> []"
  then have ev: "truthy (property body ''event'')"
    by (cases "property body ''event''") auto
  have "handler env processedEvents (Inr body) =
      (insert f processedEvents,
       [SetStatus 200, Add f] @ processMessage env (property body ''event'') @ [Respond 200 Empty])"
    using a ev handler_fresh [of body f processedEvents env] by simp
  then show "filter isGenerate (snd (handler env processedEvents (Inr body))) =
        [Generate (Str (trim (removeMentions s)))]"
    using a processMessage_mention [of "property body ''event''" s env] by simp
next
  assume b: "ident \<noteq> [] \<and> list_all isMentionChar ident \<and> list_all isSpace ws \<and>
    (rest = [] \<or> \<not> isSpace (hd rest))"
  have "removeMentions (pre @ (''<@'' @ ident @ ''>'' @ ws @ rest)) =
      removeMentions pre @ removeMentions (''<@'' @ ident @ ''>'' @ ws @ rest)"
    by (intro removeMentions_append) simp
  also have "removeMentions (''<@'' @ ident @ ''>'' @ ws @ rest) = removeMentions rest"
    using b by (intro removeMentions_token) simp_all
  finally show "removeMentions (pre @ ''<@'' @ ident @ ''>'' @ ws @ rest) =
      removeMentions pre @ removeMentions rest" .
next
  assume "CHR ''<'' \<notin> set s"
  then show "removeMentions s = s"
    using removeMentions_plain [of s "[]"] by simp
qed

theorem mention_tokens_removed_witness:
  "mentionEvent ''<@U123ABC> reset my password'' \<noteq> Null \<and>
   mentionEvent ''<@U123ABC> reset my password'' \<noteq> Undefined \<and>
   property (mentionEvent ''<@U123ABC> reset my password'') ''type'' \<noteq> Str ''url_verification'' \<and>
   eventId (property (mentionEvent ''<@U123ABC> reset my password'') ''event'') = Inr ''2.1_C1'' \<and>
   property (property (mentionEvent ''<@U123ABC> reset my password'') ''event'') ''type'' =
     Str ''app_mention'' \<and>
   property (property (mentionEvent ''<@U123ABC> reset my password'') ''event'') ''text'' =
     Str ''<@U123ABC> reset my password'' \<and>
   filter isGenerate
     (snd (handler (world okEmpty ''Here is your reset link'') {}
        (Inr (mentionEvent ''<@U123ABC> reset my password'')))) =
     [Generate (Str (trim (removeMentions ''<@U123ABC> reset my password'')))] \<and>
   list_all isMentionChar ''U123ABC'' \<and> list_all isSpace '' '' \<and>
   \<not> isSpace (hd ''reset my password'') \<and> CHR ''<'' \<notin> set ''reset my password'' \<and>
   removeMentions ''<@U123ABC> reset my password'' = ''reset my password'' \<and>
   trim ''reset my password'' = ''reset my password''"
proof -
  let ?b = "mentionEvent ''<@U123ABC> reset my password''"
  have a: "?b \<noteq> Null" "?b \<noteq> Undefined" "property ?b ''type'' \<noteq> Str ''url_verification''"
    "\<not> truthy (oget (property ?b ''event'') ''bot_id'')"
    "eventId (property ?b ''event'') = Inr ''2.1_C1''"
    "property (property ?b ''event'') ''type'' = Str ''app_mention''"
    "property (property ?b ''event'') ''text'' = Str ''<@U123ABC> reset my password''"
    by (simp_all add: mentionEvent_def eventId_def)
  have c: "list_all isMentionChar ''U123ABC''" "list_all isSpace '' ''"
    "\<not> isSpace (hd ''reset my password'')" "CHR ''<'' \<notin> set ''reset my password''"
    by (simp_all add: isMentionChar_def isSpace_def)
  have n: "''U123ABC'' \<noteq> []" by simp
  note token = mention_tokens_removed [where body = ?b and f = "''2.1_C1''"
      and processedEvents = "{}" and s = "''<@U123ABC> reset my password''"
      and env = "world okEmpty ''Here is your reset link''" and pre = "[]"
      and ident = "''U123ABC''" and ws = "'' ''" and rest = "''reset my password''"]
  note plain = mention_tokens_removed [where body = ?b and f = "''2.1_C1''"
      and processedEvents = "{}" and s = "''reset my password''"
      and env = "world okEmpty ''Here is your reset link''" and pre = "[]"
      and ident = "''U123ABC''" and ws = "'' ''" and rest = "''reset my password''"]
  have g: "filter isGenerate
     (snd (handler (world okEmpty ''Here is your reset link'') {} (Inr ?b))) =
     [Generate (Str (trim (removeMentions ''<@U123ABC> reset my password'')))]"
    using token a by blast
  have "removeMentions ([] @ ''<@'' @ ''U123ABC'' @ ''>'' @ '' '' @ ''reset my password'') =
      removeMentions [] @ removeMentions ''reset my password''"
    using token n c by blast
  then have r1: "removeMentions ''<@U123ABC> reset my password'' = removeMentions ''reset my password''"
    by (simp del: removeMentions.simps(2))
  have r2: "removeMentions ''reset my password'' = ''reset my password''"
    using plain c by blast
  have t: "trim ''reset my password'' = ''reset my password''"
    by (simp add: trim_def isSpace_def)
  from a c g r1 r2 t show ?thesis by (simp del: removeMentions.simps(2))
qed

text \<open>
  Claim C4 as stated fails: a mention token that is not the leading one is removed too.
\<close>

theorem mention_leading_only_counterexample:
  "filter isGenerate
     (snd (handler (world okEmpty ''Done'') {}
        (Inr (mentionEvent ''<@U123ABC> ask <@U456DEF> to reset'')))) =
     [Generate (Str ''ask to reset'')] \<and>
   ''ask to reset'' \<noteq> ''ask <@U456DEF> to reset''"
  by (simp add: handler_def mentionEvent_def eventId_def processMessage_def world_def
      stripMentions_def matchMention_def isMentionChar_def isSpace_def trim_def)

section \<open>Failures of the provider\<close>

text \<open>
  Claim C2, as amended. When the provider answers with a status outside 200 to 299,
  \<open>lockUser\<close>, \<open>unlockUser\<close>, \<open>addUserToGroup\<close> and \<open>resetMFA\<close> each throw an
  \<^verbatim>\<open>Error\<close> whose message is the operation's own prefix followed by the text of
  the answer's body. The message is that and nothing more: the status is not in it.
\<close>

theorem mutating_failure_raises_body:
  assumes "\<not> res_ok res"
  shows
   "(fetch env (oktaRequest env ''POST'' (''/api/v1/users/'' @ userId @ ''/lifecycle/suspend'')) =
       Inr res \<longrightarrow>
     lockUser env userId = Inl (Error (''Failed to lock user: '' @ res_text res))) \<and>
    (fetch env (oktaRequest env ''POST'' (''/api/v1/users/'' @ userId @ ''/lifecycle/unsuspend'')) =
       Inr res \<longrightarrow>
     unlockUser env userId = Inl (Error (''Failed to unlock user: '' @ res_text res))) \<and>
    (fetch env (oktaRequest env ''PUT'' (''/api/v1/groups/'' @ groupId @ ''/users/'' @ userId)) =
       Inr res \<longrightarrow>
     addUserToGroup env userId groupId =
       Inl (Error (''Failed to add user to group: '' @ res_text res))) \<and>
    (fetch env (oktaRequest env ''POST''
        (''/api/v1/users/'' @ userId @ ''/lifecycle/reset_factors'')) = Inr res \<longrightarrow>
     resetMFA env userId = Inl (Error (''Failed to reset MFA: '' @ res_text res)))"
  using assms by (simp add: lockUser_def unlockUser_def addUserToGroup_def resetMFA_def)

theorem mutating_failure_raises_body_witness:
  "\<not> res_ok notFound \<and>
   lockUser (world notFound ''ok'') ''00u1'' = Inl (Error ''Failed to lock user: Not found'') \<and>
   unlockUser (world notFound ''ok'') ''00u1'' = Inl (Error ''Failed to unlock user: Not found'') \<and>
   addUserToGroup (world notFound ''ok'') ''00u1'' ''00g1'' =
     Inl (Error ''Failed to add user to group: Not found'') \<and>
   resetMFA (world notFound ''ok'') ''00u1'' = Inl (Error ''Failed to reset MFA: Not found'')"
proof -
  have n: "\<not> res_ok notFound" by (simp add: res_ok_def notFound_def)
  have f: "fetch (world notFound ''ok'') r = Inr notFound" for r by (simp add: world_def)
  have t: "res_text notFound = ''Not found''" by (simp add: notFound_def)
  show ?thesis
    using mutating_failure_raises_body [OF n, of "world notFound ''ok''" "''00u1''" "''00g1''"] n f t
    by simp
qed

text \<open>
  Claim C2 as stated fails: on a 404 the error of \<open>lockUser\<close> holds the body and not
  the status, and \<open>resetPassword\<close>, which does not test the status, returns a result
  with no URL in it instead of throwing.
\<close>

theorem mutating_failure_status_counterexample:
  "lockUser (world notFound ''ok'') ''00u1'' = Inl (Error ''Failed to lock user: Not found'') \<and>
   \<not> sublist (show_nat 404) ''Failed to lock user: Not found'' \<and>
   res_status notFoundJson = 404 \<and>
   resetPassword (world notFoundJson ''ok'') ''00u1'' =
     Inr (Obj [(''resetPasswordUrl'', Undefined)])"
proof -
  have a: "lockUser (world notFound ''ok'') ''00u1'' = Inl (Error ''Failed to lock user: Not found'')"
    by (simp add: lockUser_def world_def notFound_def res_ok_def)
  have b: "\<not> sublist (show_nat 404) ''Failed to lock user: Not found''"
    by code_simp
  have c: "resetPassword (world notFoundJson ''ok'') ''00u1'' =
     Inr (Obj [(''resetPasswordUrl'', Undefined)])"
    by (simp add: resetPassword_def world_def notFoundJson_def)
  from a b c show ?thesis by (simp add: notFoundJson_def)
qed

section \<open>Looking up groups and users\<close>

lemma lowerName_truthy: "lowerName g = Inr n \<Longrightarrow> truthy g"
  by (cases g) (simp_all add: lowerName_def)

lemma findGroup_find:
  "list_all (\<lambda>g. \<exists>n. lowerName g = Inr n) groups \<Longrightarrow>
   findGroup groupName groups =
     Inr (case List.find (\<lambda>g. lowerName g = Inr (toLowerCase groupName)) groups of
            None \<Rightarrow> Undefined | Some g \<Rightarrow> g)"
  by (induction groups) auto

text \<open>
  Claim C7. When the provider answers the group query with success and a list of
  candidates, each with a string as \<^verbatim>\<open>profile.name\<close>, \<open>findGroupByName\<close> returns
  the first candidate whose name in lower case equals the wanted name in lower case,
  and \<^verbatim>\<open>null\<close> as the group when no candidate's does; a group it returns is one of
  the candidates and has such a name. Asked for \<^verbatim>\<open>developers\<close> it returns the group
  named \<^verbatim>\<open>Developers\<close>, not the one named \<^verbatim>\<open>Developers Team\<close>, and returns
  \<^verbatim>\<open>null\<close> when only the latter is a candidate.
\<close>

theorem findGroupByName_exact_match:
  assumes "fetch env (oktaRequest env ''GET'' (''/api/v1/groups?q='' @ encodeURIComponent groupName)) =
      Inr res"
    and "res_ok res" and "res_json res = Some (Arr groups)"
    and "list_all (\<lambda>g. \<exists>n. lowerName g = Inr n) groups"
  shows "findGroupByName env groupName =
      Inr (Obj [(''group'',
         case List.find (\<lambda>g. lowerName g = Inr (toLowerCase groupName)) groups of
           None \<Rightarrow> Null | Some g \<Rightarrow> g)]) \<and>
    (list_all (\<lambda>g. lowerName g \<noteq> Inr (toLowerCase groupName)) groups \<longrightarrow>
       findGroupByName env groupName = Inr (Obj [(''group'', Null)])) \<and>
    (\<forall>g. findGroupByName env groupName = Inr (Obj [(''group'', g)]) \<and> g \<noteq> Null \<longrightarrow>
       g \<in> set groups \<and> lowerName g = Inr (toLowerCase groupName))"
proof -
  let ?P = "\<lambda>g. lowerName g = Inr (toLowerCase groupName)"
  have main: "findGroupByName env groupName =
      Inr (Obj [(''group'', case List.find ?P groups of None \<Rightarrow> Null | Some g \<Rightarrow> g)])"
  proof (cases "List.find ?P groups")
    case None
    then show ?thesis
      using assms by (simp add: findGroupByName_def findGroup_find)
  next
    case (Some g)
    then have "?P g" by (auto simp: find_Some_iff)
    then have "truthy g" by (rule lowerName_truthy)
    with Some show ?thesis
      using assms by (simp add: findGroupByName_def findGroup_find)
  qed
  have none: "findGroupByName env groupName = Inr (Obj [(''group'', Null)])"
    if "list_all (\<lambda>g. lowerName g \<noteq> Inr (toLowerCase groupName)) groups"
  proof -
    from that have "List.find ?P groups = None"
      by (simp add: find_None_iff list_all_iff)
    with main show ?thesis by simp
  qed
  have some: "g \<in> set groups \<and> lowerName g = Inr (toLowerCase groupName)"
    if "findGroupByName env groupName = Inr (Obj [(''group'', g)]) \<and> g \<noteq> Null" for g
  proof (cases "List.find ?P groups")
    case None
    with main that show ?thesis by simp
  next
    case (Some h)
    with main that have "h = g" by simp
    with Some show ?thesis by (auto simp: find_Some_iff)
  qed
  from main none some show ?thesis by blast
qed

theorem findGroupByName_exact_match_witness:
  "res_ok twoGroups \<and>
   res_json twoGroups = Some (Arr [groupObj ''00g1'' ''Developers Team'',
                                   groupObj ''00g2'' ''Developers'']) \<and>
   lowerName (groupObj ''00g1'' ''Developers Team'') = Inr ''developers team'' \<and>
   lowerName (groupObj ''00g2'' ''Developers'') = Inr ''developers'' \<and>
   toLowerCase ''developers'' = ''developers'' \<and>
   findGroupByName (world twoGroups ''ok'') ''developers'' =
     Inr (Obj [(''group'', groupObj ''00g2'' ''Developers'')]) \<and>
   res_ok oneGroup \<and>
   res_json oneGroup = Some (Arr [groupObj ''00g1'' ''Developers Team'']) \<and>
   findGroupByName (world oneGroup ''ok'') ''developers'' = Inr (Obj [(''group'', Null)])"
proof -
  have l: "lowerName (groupObj ''00g1'' ''Developers Team'') = Inr ''developers team''"
    "lowerName (groupObj ''00g2'' ''Developers'') = Inr ''developers''"
    "toLowerCase ''developers'' = ''developers''"
    by (simp_all add: lowerName_def groupObj_def toLowerCase_def lowerChar_def char_of_eq_iff)
  have two: "res_ok twoGroups"
    "res_json twoGroups = Some (Arr [groupObj ''00g1'' ''Developers Team'',
                                     groupObj ''00g2'' ''Developers''])"
    by (simp_all add: twoGroups_def res_ok_def)
  have one: "res_ok oneGroup"
    "res_json oneGroup = Some (Arr [groupObj ''00g1'' ''Developers Team''])"
    by (simp_all add: oneGroup_def res_ok_def)
  have f: "fetch (world r ''ok'') q = Inr r" for r q by (simp add: world_def)
  have wf2: "list_all (\<lambda>g. \<exists>n. lowerName g = Inr n)
      [groupObj ''00g1'' ''Developers Team'', groupObj ''00g2'' ''Developers'']"
    using l by simp
  have wf1: "list_all (\<lambda>g. \<exists>n. lowerName g = Inr n) [groupObj ''00g1'' ''Developers Team'']"
    using l by simp
  have r2: "findGroupByName (world twoGroups ''ok'') ''developers'' =
     Inr (Obj [(''group'', groupObj ''00g2'' ''Developers'')])"
    using findGroupByName_exact_match [OF f two wf2, of "''developers''"] l by simp
  have r1: "findGroupByName (world oneGroup ''ok'') ''developers'' = Inr (Obj [(''group'', Null)])"
    using findGroupByName_exact_match [OF f one wf1, of "''developers''"] l by simp
  from l two one r2 r1 show ?thesis by simp
qed

text \<open>
  Claim C8. When the provider answers the user query with success and a list,
  \<open>findUserByEmail\<close> returns \<^verbatim>\<open>null\<close> as the user for the empty list, without
  throwing, and the first element of a list of several users.
\<close>

theorem findUserByEmail_first_or_absent:
  assumes "fetch env (oktaRequest env ''GET''
        (''/api/v1/users?filter='' @ encodeURIComponent (''profile.email eq '' @ quoted email))) =
      Inr res"
    and "res_ok res" and "res_json res = Some (Arr users)"
  shows "findUserByEmail env email =
      Inr (Obj [(''user'',
         case users of [] \<Rightarrow> Null | u # rest \<Rightarrow> if truthy u then u else Null)]) \<and>
    (users = [] \<longrightarrow> findUserByEmail env email = Inr (Obj [(''user'', Null)])) \<and>
    (\<forall>u rest. users = u # rest \<and> truthy u \<longrightarrow>
       findUserByEmail env email = Inr (Obj [(''user'', u)]))"
  using assms
  by (auto simp add: findUserByEmail_def lengthOf_def first_def split: list.splits)

theorem findUserByEmail_first_or_absent_witness:
  "res_ok okEmpty \<and> res_json okEmpty = Some (Arr []) \<and>
   findUserByEmail (world okEmpty ''ok'') ''john@x.com'' = Inr (Obj [(''user'', Null)]) \<and>
   res_ok twoUsers \<and>
   res_json twoUsers = Some (Arr [userObj ''00u1'' ''john@x.com'', userObj ''00u2'' ''john@x.com'']) \<and>
   truthy (userObj ''00u1'' ''john@x.com'') \<and>
   findUserByEmail (world twoUsers ''ok'') ''john@x.com'' =
     Inr (Obj [(''user'', userObj ''00u1'' ''john@x.com'')])"
proof -
  have f: "fetch (world r ''ok'') q = Inr r" for r q by (simp add: world_def)
  have e: "res_ok okEmpty" "res_json okEmpty = Some (Arr [])"
    by (simp_all add: okEmpty_def res_ok_def)
  have t: "res_ok twoUsers"
    "res_json twoUsers = Some (Arr [userObj ''00u1'' ''john@x.com'', userObj ''00u2'' ''john@x.com''])"
    by (simp_all add: twoUsers_def res_ok_def)
  have u: "truthy (userObj ''00u1'' ''john@x.com'')" by (simp add: userObj_def)
  have r0: "findUserByEmail (world okEmpty ''ok'') ''john@x.com'' = Inr (Obj [(''user'', Null)])"
    using findUserByEmail_first_or_absent [OF f e, of "''john@x.com''"] by simp
  have r2: "findUserByEmail (world twoUsers ''ok'') ''john@x.com'' =
     Inr (Obj [(''user'', userObj ''00u1'' ''john@x.com'')])"
    using findUserByEmail_first_or_absent [OF f t, of "''john@x.com''"] u by simp
  from e t u r0 r2 show ?thesis by simp
qed

end
